theory Spec2Isabelle
  imports Main
begin

section \<open>Strings and the Python string operations the helpers use\<close>

text \<open>
  A Python \<open>str\<close> is modelled as a HOL \<open>string\<close>; a \<open>char\<close> stands for a code point
  below 256. \<open>str.strip()\<close> without argument removes leading and trailing white space,
  which among these code points is 9-13, 28-32, 133 and 160.
\<close>

definition py_isspace :: "char \<Rightarrow> bool" where
  "py_isspace c =
     (let n = (of_char c :: nat)
      in (9 \<le> n \<and> n \<le> 13) \<or> (28 \<le> n \<and> n \<le> 32) \<or> n = 133 \<or> n = 160)"

definition py_strip :: "string \<Rightarrow> string" where
  "py_strip s = rev (dropWhile py_isspace (rev (dropWhile py_isspace s)))"

text \<open>\<open>s * n\<close> on a string: \<open>n\<close> copies, none when \<open>n\<close> is zero or negative.\<close>

definition py_repeat :: "string \<Rightarrow> int \<Rightarrow> string" where
  "py_repeat s n = concat (replicate (nat n) s)"

text \<open>Truth value of \<open>x.text\<close>, which is \<open>None\<close> or a string: false for \<open>None\<close> and for \<open>""\<close>.\<close>

definition py_truthy :: "string option \<Rightarrow> bool" where
  "py_truthy t = (case t of None \<Rightarrow> False | Some s \<Rightarrow> s \<noteq> [])"

text \<open>Substring test (\<open>p in s\<close>), used to say that a message names something.\<close>

fun py_contains :: "string \<Rightarrow> string \<Rightarrow> bool" where
  "py_contains p [] = (p = [])"
| "py_contains p (c # cs) = (take (length p) (c # cs) = p \<or> py_contains p cs)"

section \<open>Namespace normalisation: \<open>re.sub(r'\{.*\}(.*)', r'\1', tag)\<close>\<close>

text \<open>
  The pattern is \<open>\{.*\}(.*)\<close> without flags, so \<open>.\<close> matches every character except
  the line feed. A match starts at a \<open>{\<close> that has a \<open>}\<close> later on the same line; the
  first \<open>.*\<close> is greedy and stops at the last \<open>}\<close> of that line; the group is the rest
  of the line. \<open>re.sub\<close> replaces the leftmost match by its group and goes on after the
  end of the match, copying every character that no match covers.
\<close>

definition not_nl :: "char \<Rightarrow> bool" where
  "not_nl c = (c \<noteq> CHR 0x0A)"

definition not_rbrace :: "char \<Rightarrow> bool" where
  "not_rbrace c = (c \<noteq> CHR ''}'')"

definition after_last_rbrace :: "string \<Rightarrow> string" where
  "after_last_rbrace line = rev (takeWhile not_rbrace (rev line))"

function re_sub_ns :: "string \<Rightarrow> string" where
  "re_sub_ns [] = []"
| "re_sub_ns (c # cs) =
     (if c = CHR ''{'' \<and> CHR ''}'' \<in> set (takeWhile not_nl cs)
      then after_last_rbrace (takeWhile not_nl cs) @ re_sub_ns (dropWhile not_nl cs)
      else c # re_sub_ns cs)"
  by pat_completeness auto
termination
  by (relation "measure length") (auto simp: le_imp_less_Suc length_dropWhile_le)

text \<open>Lines 112-115 of \<open>xml_to_tree\<close>: the tag as it is, or with the namespace removed.\<close>

definition normalize_tag :: "bool \<Rightarrow> string \<Rightarrow> string" where
  "normalize_tag preserve_ns tag = (if preserve_ns then tag else re_sub_ns tag)"

section \<open>Exceptions\<close>

text \<open>
  The exceptions the helpers raise themselves are \<open>ValueError\<close> (raised in
  \<open>load_xml_filter\<close>) and \<open>TypeError\<close> (raised by \<open>str + int\<close>, by \<open>re.sub\<close> on a value
  that is not a string and by a format specification on a function object). \<open>Foreign\<close>
  is an exception raised by a collaborator (the file system, the NETCONF session, the
  XML parser), with the name of its class and its message; the helpers catch nothing, so
  it leaves them unchanged. The wording of a message that the interpreter or a library
  produces varies with its version; what is proved about such an exception is its class.
\<close>

datatype py_exn = ValueError string | TypeError string | Foreign string string

fun exn_message :: "py_exn \<Rightarrow> string" where
  "exn_message (ValueError m) = m"
| "exn_message (TypeError m) = m"
| "exn_message (Foreign c m) = m"

fun exn_class :: "py_exn \<Rightarrow> string" where
  "exn_class (ValueError m) = ''ValueError''"
| "exn_class (TypeError m) = ''TypeError''"
| "exn_class (Foreign c m) = c"

text \<open>The class of the exception a call ended with, \<open>None\<close> when it returned a value.\<close>

definition raised_class :: "py_exn + 'a \<Rightarrow> string option" where
  "raised_class r = (case r of Inl e \<Rightarrow> Some (exn_class e) | Inr v \<Rightarrow> None)"

section \<open>Elements and the tree printer\<close>

text \<open>
  A node of a parsed document as the helpers read it: its tag, its text (\<open>text_of\<close>,
  \<open>None\<close> when absent) and its children in document order, as \<open>getchildren()\<close> returns
  them. The tag of an element proper is a string. Comments, processing instructions and
  entity references are nodes too, and children of the element that holds them; their
  \<open>tag\<close> is not a string but the factory function (\<open>etree.Comment\<close>,
  \<open>etree.ProcessingInstruction\<close>, \<open>etree.Entity\<close>).
\<close>

datatype py_tag = StrTag string | FuncTag

datatype Element = Element (tag: py_tag) (text_of: "string option") (children: "Element list")

text \<open>
  Lines 112-115: with \<open>preserve_ns\<close> the tag is taken as it is, whatever it is; otherwise
  it goes through \<open>re.sub\<close>, which raises \<open>TypeError\<close> on a value that is not a string.
\<close>

definition re_sub_type_error :: string where
  "re_sub_type_error = ''expected string or bytes-like object''"

definition printer_tag :: "bool \<Rightarrow> py_tag \<Rightarrow> py_exn + py_tag" where
  "printer_tag preserve_ns t =
     (if preserve_ns then Inr t
      else case t of
             StrTag s \<Rightarrow> Inr (StrTag (re_sub_ns s))
           | FuncTag \<Rightarrow> Inl (TypeError re_sub_type_error))"

text \<open>Lines 116-119: the text of the node, stripped or not, \<open>""\<close> when there is none.\<close>

definition node_text :: "Element \<Rightarrow> bool \<Rightarrow> string" where
  "node_text x text_strip =
     (if text_strip \<and> py_truthy (text_of x) then py_strip (the (text_of x))
      else if py_truthy (text_of x) then the (text_of x) else [])"

text \<open>
  \<open>{tag:<}\<close> in the f-string: a string is left as it is (no width is given); a function
  object has no format specifications, so a non-empty one raises \<open>TypeError\<close>.
\<close>

definition format_type_error :: string where
  "format_type_error = ''unsupported format string passed to __format__''"

definition py_format_left :: "py_tag \<Rightarrow> py_exn + string" where
  "py_format_left t =
     (case t of StrTag s \<Rightarrow> Inr s | FuncTag \<Rightarrow> Inl (TypeError format_type_error))"

text \<open>The f-string of lines 121-122, for a tag and a text that are strings.\<close>

definition line_text :: "int \<Rightarrow> string \<Rightarrow> string \<Rightarrow> string" where
  "line_text lvl shown txt =
     py_repeat ''  '' (lvl - 1) @ ''|--Tag: '' @ shown
     @ py_repeat ''  '' (lvl - 1) @ ''|  Text: '' @ txt"

text \<open>Lines 112-122: the line of one node, or the exception raised while building it.\<close>

definition format_line :: "Element \<Rightarrow> int \<Rightarrow> bool \<Rightarrow> bool \<Rightarrow> py_exn + string" where
  "format_line x lvl preserve_ns text_strip =
     (case printer_tag preserve_ns (tag x) of
        Inl e \<Rightarrow> Inl e
      | Inr t \<Rightarrow>
          (case py_format_left t of
             Inl e \<Rightarrow> Inl e
           | Inr shown \<Rightarrow> Inr (line_text lvl shown (node_text x text_strip))))"

text \<open>
  A run of the generator is the list of the lines it yields, in the order it yields
  them, and the exception that ended it, if one did. \<open>gen_chain\<close> is the \<open>for\<close> loop with
  \<open>yield from\<close>: the runs of the children one after the other, up to and including the
  first that raises.
\<close>

type_synonym gen_run = "string list \<times> py_exn option"

fun gen_chain :: "gen_run list \<Rightarrow> gen_run" where
  "gen_chain [] = ([], None)"
| "gen_chain ((ls, Some e) # rest) = (ls, Some e)"
| "gen_chain ((ls, None) # rest) = (case gen_chain rest of (ls', r) \<Rightarrow> (ls @ ls', r))"

fun xml_to_tree :: "Element \<Rightarrow> int \<Rightarrow> bool \<Rightarrow> bool \<Rightarrow> gen_run" where
  "xml_to_tree (Element t tx chs) lvl preserve_ns text_strip =
     (case format_line (Element t tx chs) lvl preserve_ns text_strip of
        Inl e \<Rightarrow> ([], Some e)
      | Inr line \<Rightarrow>
          (case gen_chain (map (\<lambda>ch. xml_to_tree ch (lvl + 1) preserve_ns text_strip) chs) of
             (ls, r) \<Rightarrow> (line # ls, r)))"

text \<open>
  What the claims about the printer are measured against: the nodes of a tree in
  pre-order, each with its depth (the root at \<open>lvl\<close>, a child one deeper than its
  parent), the number of nodes, the number of blanks a line begins with, and the trees
  all of whose nodes are elements proper.
\<close>

fun preorder :: "Element \<Rightarrow> int \<Rightarrow> (Element \<times> int) list" where
  "preorder (Element t tx chs) lvl =
     (Element t tx chs, lvl) # concat (map (\<lambda>ch. preorder ch (lvl + 1)) chs)"

fun num_nodes :: "Element \<Rightarrow> nat" where
  "num_nodes (Element t tx chs) = Suc (sum_list (map num_nodes chs))"

definition leading_blanks :: "string \<Rightarrow> nat" where
  "leading_blanks line = length (takeWhile (\<lambda>c. c = CHR '' '') line)"

fun is_str_tag :: "py_tag \<Rightarrow> bool" where
  "is_str_tag (StrTag s) = True"
| "is_str_tag FuncTag = False"

fun elements_only :: "Element \<Rightarrow> bool" where
  "elements_only (Element t tx chs) = (is_str_tag t \<and> (\<forall>ch \<in> set chs. elements_only ch))"

section \<open>Parent links and the ancestor path\<close>

text \<open>
  \<open>get_path_to_root\<close> only follows \<open>getparent()\<close> and reads \<open>tag\<close>. The document is a
  store from node references to nodes, each with its tag and the reference of its parent
  (\<open>None\<close> for a node without parent). Nothing in the store forbids a cycle of parents.
\<close>

type_synonym ref = nat

record node =
  n_tag :: string
  n_parent :: "ref option"

type_synonym store = "ref \<Rightarrow> node"

text \<open>
  The \<open>while anc is not None\<close> loop; \<open>path.insert(0, v)\<close> puts \<open>v\<close> in front. A loop
  that never leaves is the value \<open>None\<close>.
\<close>

partial_function (option) path_loop :: "store \<Rightarrow> bool \<Rightarrow> ref option \<Rightarrow> string list \<Rightarrow> string list option" where
  "path_loop st preserve_ns anc path =
     (case anc of
        None \<Rightarrow> Some path
      | Some a \<Rightarrow>
          path_loop st preserve_ns (n_parent (st a))
            ((if preserve_ns then py_strip (n_tag (st a))
              else re_sub_ns (py_strip (n_tag (st a)))) # path))"

definition get_path_to_root :: "store \<Rightarrow> ref \<Rightarrow> bool \<Rightarrow> string list option" where
  "get_path_to_root st e preserve_ns = path_loop st preserve_ns (n_parent (st e)) []"

text \<open>
  \<open>parent_chain st e as\<close>: the ancestors of \<open>e\<close> are exactly \<open>as\<close>, the immediate parent
  first and a node without parent last. The depth of \<open>e\<close> is the length of \<open>as\<close>.
\<close>

fun parent_chain :: "store \<Rightarrow> ref \<Rightarrow> ref list \<Rightarrow> bool" where
  "parent_chain st e [] = (n_parent (st e) = None)"
| "parent_chain st e (a # as) = (n_parent (st e) = Some a \<and> parent_chain st a as)"

definition ancestor_name :: "store \<Rightarrow> bool \<Rightarrow> ref \<Rightarrow> string" where
  "ancestor_name st preserve_ns a = normalize_tag preserve_ns (py_strip (n_tag (st a)))"

section \<open>Standard output and the file system\<close>

text \<open>Standard output is the list of the texts written to it, one per \<open>print\<close> call.\<close>

type_synonym stdout = "string list"

text \<open>
  The file system as \<open>load_xml_filter\<close> sees it: \<open>os.path.abspath\<close>, \<open>os.path.exists\<close>,
  \<open>os.access(p, os.R_OK)\<close>, \<open>open\<close> (which may raise) and \<open>read\<close> (which may raise).
\<close>

record filesystem =
  abspath :: "string \<Rightarrow> string"
  path_exists :: "string \<Rightarrow> bool"
  access_r :: "string \<Rightarrow> bool"
  open_r :: "string \<Rightarrow> py_exn option"
  read_all :: "string \<Rightarrow> py_exn + string"

definition load_xml_filter :: "filesystem \<Rightarrow> string \<Rightarrow> string \<Rightarrow> stdout \<Rightarrow> (py_exn + string) \<times> stdout" where
  "load_xml_filter fs fname fdir out =
     (let path_input_file = abspath fs (fdir @ ''/'' @ fname @ ''.xml'')
      in if path_exists fs path_input_file \<and> access_r fs path_input_file
         then (case open_r fs path_input_file of
                 Some e \<Rightarrow> (Inl e, out)
               | None \<Rightarrow>
                   (let out' = out @ [''fh type: '', ''<class '' @ [CHR 0x27] @ ''_io.TextIOWrapper'' @ [CHR 0x27] @ ''>'']
                    in (read_all fs path_input_file, out')))
         else (Inl (ValueError (''Please directory '' @ fdir
                      @ '' exist and intended filter present in the directory.'')),
               out @ [''Can'' @ [CHR 0x27] @ ''t load filter '' @ fname]))"

section \<open>The NETCONF session and the configuration fetcher\<close>

text \<open>
  The session is a collaborator. \<open>get_config(source, filter)\<close> answers with a reply
  whose \<open>data_xml\<close> is a string, or raises; what it answers may depend on the calls made
  before. The session records every call it receives.
\<close>

type_synonym get_config_call = "string \<times> (string \<times> string)"

record session =
  answer :: "get_config_call list \<Rightarrow> get_config_call \<Rightarrow> py_exn + string"
  calls :: "get_config_call list"

definition get_config :: "session \<Rightarrow> string \<Rightarrow> string \<times> string \<Rightarrow> (py_exn + string) \<times> session" where
  "get_config nfd source flt =
     (answer nfd (calls nfd) (source, flt), nfd\<lparr>calls := calls nfd @ [(source, flt)]\<rparr>)"

text \<open>
  The literal between the triple quotes of \<open>def_xml_filter\<close>: a line feed and fourteen
  blanks before each of the two tags.
\<close>

definition def_xml_filter :: string where
  \<open>def_xml_filter =
     [CHR 0x0A] @ ''              <configure xmlns="urn:nokia.com:sros:ns:yang:sr:conf">''
     @ [CHR 0x0A] @ ''              </configure>''\<close>

text \<open>The default filter literal as the specification gives it, and its two tags.\<close>

definition configure_open_tag :: string where
  \<open>configure_open_tag = ''<configure xmlns="urn:nokia.com:sros:ns:yang:sr:conf">''\<close>

definition configure_close_tag :: string where
  "configure_close_tag = ''</configure>''"

definition filter_indent :: string where
  "filter_indent = CHR 0x0A # replicate 14 (CHR '' '')"


definition spec_default_filter :: string where
  \<open>spec_default_filter = ''<configure xmlns="urn:nokia.com:sros:ns:yang:sr:conf"></configure>''\<close>

text \<open>
  The parser is \<open>etree.fromstring\<close> with an \<open>XMLParser(ns_clean=True, recover=True,
  encoding='utf-8', remove_blank_text=...)\<close>: a collaborator, taken as a parameter. Given
  \<open>remove_blank_text\<close> and the payload it raises or returns an element or \<open>None\<close>.
\<close>

type_synonym xml_parser = "bool \<Rightarrow> string \<Rightarrow> py_exn + Element option"

text \<open>The message of the \<open>TypeError\<close> that \<open>str + int\<close> raises.\<close>

definition str_plus_int_message :: string where
  \<open>str_plus_int_message = ''can only concatenate str (not "int") to str''\<close>

definition title :: string where
  "title = '' Retrieved SROS XML config ''"

text \<open>
  The fetcher returns its result, the session after the call and standard output. With
  \<open>pprn\<close> it prints two texts and then evaluates \<open>40 * "=" + len(title)\<close>, a string plus
  an integer, which raises \<open>TypeError\<close>.
\<close>

definition get_sros_elem_config ::
  "xml_parser \<Rightarrow> session \<Rightarrow> string \<Rightarrow> string \<Rightarrow> bool \<Rightarrow> bool \<Rightarrow> stdout
     \<Rightarrow> (py_exn + Element option) \<times> session \<times> stdout" where
  \<open>get_sros_elem_config xml_par nfd xml_filter source remove_blank_text pprn out =
     (let (response_xml, nfd') =
            (if xml_filter \<noteq> [] then get_config nfd source (''subtree'', xml_filter)
             else get_config nfd source (''subtree'', def_xml_filter))
      in case response_xml of
           Inl e \<Rightarrow> (Inl e, nfd', out)
         | Inr data_xml \<Rightarrow>
             if pprn
             then (Inl (TypeError str_plus_int_message), nfd',
                   out @ [py_repeat ''='' 20 @ title @ py_repeat ''='' 20, data_xml])
             else (xml_par remove_blank_text data_xml, nfd', out))\<close>

section \<open>Concrete documents, sessions, parsers and file systems\<close>

text \<open>A three-level document: \<open>configure\<close> (node 0), \<open>router\<close> (1), \<open>interface\<close> (2 and up).\<close>

definition example_doc :: store where
  "example_doc r =
     (if r = 0 then \<lparr>n_tag = ''{urn:nokia.com:sros:ns:yang:sr:conf}configure'', n_parent = None\<rparr>
      else if r = 1 then \<lparr>n_tag = ''{urn:nokia.com:sros:ns:yang:sr:conf}router'', n_parent = Some 0\<rparr>
      else \<lparr>n_tag = ''{urn:nokia.com:sros:ns:yang:sr:conf}interface'', n_parent = Some 1\<rparr>)"

text \<open>A malformed document: node 0 has parent 1 and every other node has parent 0.\<close>

definition cyclic_doc :: store where
  "cyclic_doc r = \<lparr>n_tag = ''a'', n_parent = Some (if r = 0 then 1 else 0)\<rparr>"

definition example_tree :: Element where
  "example_tree =
     Element (StrTag ''{urn:nokia.com:sros:ns:yang:sr:conf}configure'') None
       [Element (StrTag ''{urn:nokia.com:sros:ns:yang:sr:conf}router'') (Some ''  '')
          [Element (StrTag ''{urn:nokia.com:sros:ns:yang:sr:conf}interface'') (Some '' to-core '') []],
        Element (StrTag ''{urn:nokia.com:sros:ns:yang:sr:conf}system'') None []]"

text \<open>
  The tree of \<open><configure><!-- note --><router/></configure>\<close>: the comment is the first
  child of \<open>configure\<close>.
\<close>

definition commented_tree :: Element where
  "commented_tree =
     Element (StrTag ''configure'') None
       [Element FuncTag (Some '' note '') [],
        Element (StrTag ''router'') None []]"

text \<open>A session that answers every call with the same payload and has seen no call yet.\<close>

definition stub_session :: "string \<Rightarrow> session" where
  "stub_session payload = \<lparr>answer = (\<lambda>h c. Inr payload), calls = []\<rparr>"

text \<open>A parser that returns the example tree.\<close>

definition tree_parser :: xml_parser where
  "tree_parser remove_blank_text data = Inr (Some example_tree)"

text \<open>
  The recovering parser on four payloads, given as a table. The empty payload is not a
  document at all: \<open>XMLSyntaxError\<close> is raised, recovery or not. \<open>garbage\<close> has no start
  tag: recovery leaves a document without root element and \<open>fromstring\<close> returns \<open>None\<close>.
  \<open><a><b></a>\<close> is repaired to \<open><a><b/></a>\<close>. Other payloads are outside the table and
  answered with \<open>None\<close>; nothing below uses them.
\<close>

definition recover_parser :: xml_parser where
  "recover_parser remove_blank_text data =
     (if data = [] then Inl (Foreign ''XMLSyntaxError'' ''Document is empty, line 1, column 1'')
      else if data = ''garbage'' then Inr None
      else if data = ''<a><b></a>'' then Inr (Some (Element (StrTag ''a'') None [Element (StrTag ''b'') None []]))
      else if data = ''<a/>'' then Inr (Some (Element (StrTag ''a'') None []))
      else Inr None)"

text \<open>A file system without any file; relative paths are resolved against \<open>/home/user\<close>.\<close>

definition empty_fs :: filesystem where
  "empty_fs = \<lparr>abspath = (\<lambda>p. ''/home/user/'' @ p), path_exists = (\<lambda>p. False),
               access_r = (\<lambda>p. False),
               open_r = (\<lambda>p. Some (Foreign ''FileNotFoundError'' p)),
               read_all = (\<lambda>p. Inl (Foreign ''FileNotFoundError'' p))\<rparr>"

section \<open>The namespace normaliser\<close>

text \<open>A tag without \<open>{\<close>, or without \<open>}\<close>, has no match and is returned as it is.\<close>

lemma re_sub_ns_no_lbrace: "CHR ''{'' \<notin> set t \<Longrightarrow> re_sub_ns t = t"
  by (induction t) auto

lemma re_sub_ns_no_rbrace: "CHR ''}'' \<notin> set t \<Longrightarrow> re_sub_ns t = t"
proof (induction t)
  case Nil
  then show ?case by simp
next
  case (Cons c cs)
  then have "CHR ''}'' \<notin> set (takeWhile not_nl cs)"
    by (auto dest: set_takeWhileD)
  with Cons show ?case by simp
qed

lemma after_last_rbrace_append:
  assumes "CHR ''}'' \<notin> set b"
  shows "after_last_rbrace (a @ CHR ''}'' # b) = b"
proof -
  have "\<And>x. x \<in> set (rev b) \<Longrightarrow> not_rbrace x"
    using assms by (auto simp: not_rbrace_def)
  then have "takeWhile not_rbrace (rev b @ CHR ''}'' # rev a) = rev b @ takeWhile not_rbrace (CHR ''}'' # rev a)"
    by (rule takeWhile_append2)
  then show ?thesis
    by (simp add: after_last_rbrace_def not_rbrace_def)
qed

lemma takeWhile_not_nl_clark:
  assumes "CHR 0x0A \<notin> set uri"
  shows "takeWhile not_nl (uri @ CHR ''}'' # name) = uri @ CHR ''}'' # takeWhile not_nl name"
proof -
  have "\<And>x. x \<in> set uri \<Longrightarrow> not_nl x"
    using assms by (auto simp: not_nl_def)
  then have "takeWhile not_nl (uri @ CHR ''}'' # name) = uri @ takeWhile not_nl (CHR ''}'' # name)"
    by (rule takeWhile_append2)
  then show ?thesis by (simp add: not_nl_def)
qed

lemma dropWhile_not_nl_clark:
  assumes "CHR 0x0A \<notin> set uri"
  shows "dropWhile not_nl (uri @ CHR ''}'' # name) = dropWhile not_nl name"
proof -
  have "\<And>x. x \<in> set uri \<Longrightarrow> not_nl x"
    using assms by (auto simp: not_nl_def)
  then have "dropWhile not_nl (uri @ CHR ''}'' # name) = dropWhile not_nl (CHR ''}'' # name)"
    by (rule dropWhile_append2)
  then show ?thesis by (simp add: not_nl_def)
qed

lemma re_sub_ns_clark:
  assumes "CHR 0x0A \<notin> set uri" and "CHR ''}'' \<notin> set name"
  shows "re_sub_ns (''{'' @ uri @ ''}'' @ name) = name"
proof -
  have a: "CHR ''}'' \<notin> set (takeWhile not_nl name)"
    using assms(2) by (auto dest: set_takeWhileD)
  have b: "CHR ''}'' \<notin> set (dropWhile not_nl name)"
    using assms(2) by (auto dest: set_dropWhileD)
  have "re_sub_ns (''{'' @ uri @ ''}'' @ name)
        = after_last_rbrace (uri @ CHR ''}'' # takeWhile not_nl name) @ re_sub_ns (dropWhile not_nl name)"
    using assms(1) by (simp add: takeWhile_not_nl_clark dropWhile_not_nl_clark)
  also have "\<dots> = takeWhile not_nl name @ dropWhile not_nl name"
    using a b by (simp add: after_last_rbrace_append re_sub_ns_no_rbrace)
  finally show ?thesis by simp
qed

text \<open>
  C7, as the code has it. For a tag \<open>{uri}name\<close> whose \<open>uri\<close> holds no line feed and whose
  \<open>name\<close> holds no \<open>}\<close> (every XML qualified name in Clark notation), normalisation
  with \<open>preserve_ns = False\<close> yields \<open>name\<close>; for a tag without braces the output is
  the input; with \<open>preserve_ns = True\<close> normalisation is the identity.
\<close>

theorem normalize_tag_cases:
  "(CHR 0x0A \<notin> set uri \<and> CHR ''}'' \<notin> set name \<longrightarrow>
      normalize_tag False (''{'' @ uri @ ''}'' @ name) = name)
   \<and> (CHR ''{'' \<notin> set t \<and> CHR ''}'' \<notin> set t \<longrightarrow> normalize_tag False t = t)
   \<and> normalize_tag True t = t"
  by (simp add: normalize_tag_def re_sub_ns_clark re_sub_ns_no_lbrace del: append.simps)

theorem normalize_tag_cases_witness:
  "CHR 0x0A \<notin> set ''urn:nokia.com:sros:ns:yang:sr:conf'' \<and> CHR ''}'' \<notin> set ''configure''
   \<and> normalize_tag False (''{'' @ ''urn:nokia.com:sros:ns:yang:sr:conf'' @ ''}'' @ ''configure'') = ''configure''
   \<and> CHR ''{'' \<notin> set ''router'' \<and> CHR ''}'' \<notin> set ''router''
   \<and> normalize_tag False ''router'' = ''router''
   \<and> normalize_tag True ''{urn:nokia.com:sros:ns:yang:sr:conf}configure''
       = ''{urn:nokia.com:sros:ns:yang:sr:conf}configure''"
  using normalize_tag_cases [of "''urn:nokia.com:sros:ns:yang:sr:conf''" "''configure''" "''router''"]
    normalize_tag_cases [of "''urn:nokia.com:sros:ns:yang:sr:conf''" "''configure''"
      "''{urn:nokia.com:sros:ns:yang:sr:conf}configure''"]
  by simp

text \<open>
  The claim as stated fails: with a line feed in \<open>uri\<close> nothing matches and the tag is
  returned whole; with a \<open>}\<close> in \<open>name\<close> the greedy \<open>.*\<close> runs to the last \<open>}\<close>.
\<close>

theorem normalize_tag_form_counterexample:
  "normalize_tag False (''{'' @ (''a'' @ [CHR 0x0A] @ ''b'') @ ''}'' @ ''c'') \<noteq> ''c''
   \<and> normalize_tag False (''{'' @ ''u'' @ ''}'' @ ''a}b'') \<noteq> ''a}b''"
  by (simp add: normalize_tag_def not_nl_def after_last_rbrace_def not_rbrace_def)

section \<open>The tree printer\<close>

lemma concat_replicate_blanks: "concat (replicate k ''  '') = replicate (2 * k) (CHR '' '')"
  by (induction k) simp_all

lemma py_repeat_blanks: "py_repeat ''  '' n = replicate (2 * nat n) (CHR '' '')"
  by (simp add: py_repeat_def concat_replicate_blanks)

lemma leading_blanks_replicate:
  "c \<noteq> CHR '' '' \<Longrightarrow> leading_blanks (replicate k (CHR '' '') @ c # rest) = k"
  by (induction k) (simp_all add: leading_blanks_def)

lemma leading_blanks_line_text: "leading_blanks (line_text l shown txt) = 2 * nat (l - 1)"
  by (simp add: line_text_def py_repeat_blanks leading_blanks_replicate)

lemma format_line_element:
  "format_line (Element (StrTag tg) tx chs) lvl p s
   = Inr (line_text lvl (normalize_tag p tg) (node_text (Element (StrTag tg) tx chs) s))"
  by (simp add: format_line_def printer_tag_def py_format_left_def normalize_tag_def)

lemma gen_chain_no_raise:
  "\<forall>r \<in> set rs. snd r = None \<Longrightarrow> gen_chain rs = (concat (map fst rs), None)"
proof (induction rs)
  case Nil
  then show ?case by simp
next
  case (Cons r rs)
  obtain ls e where r: "r = (ls, e)" by (cases r)
  with Cons.prems have "e = None" by simp
  with r Cons show ?case by simp
qed

lemma xml_to_tree_no_raise:
  "elements_only x \<Longrightarrow> snd (xml_to_tree x lvl p s) = None"
proof (induction x arbitrary: lvl)
  case (Element t tx chs)
  then obtain tg where t: "t = StrTag tg" by (cases t) simp_all
  from Element have kids: "\<forall>r \<in> set (map (\<lambda>ch. xml_to_tree ch (lvl + 1) p s) chs). snd r = None"
    by simp
  show ?case
    by (simp add: t format_line_element gen_chain_no_raise [OF kids])
qed

lemma xml_to_tree_element:
  assumes "\<forall>ch \<in> set chs. elements_only ch"
  shows "xml_to_tree (Element (StrTag tg) tx chs) lvl p s
         = (line_text lvl (normalize_tag p tg) (node_text (Element (StrTag tg) tx chs) s)
              # concat (map (\<lambda>ch. fst (xml_to_tree ch (lvl + 1) p s)) chs), None)"
proof -
  from assms have kids: "\<forall>r \<in> set (map (\<lambda>ch. xml_to_tree ch (lvl + 1) p s) chs). snd r = None"
    by (simp add: xml_to_tree_no_raise)
  show ?thesis
    by (simp add: format_line_element gen_chain_no_raise [OF kids] comp_def)
qed

lemma xml_to_tree_preorder:
  "elements_only x \<Longrightarrow>
   map Inr (fst (xml_to_tree x lvl p s)) = map (\<lambda>(n, l). format_line n l p s) (preorder x lvl)"
proof (induction x arbitrary: lvl)
  case (Element t tx chs)
  then obtain tg where t: "t = StrTag tg" by (cases t) simp_all
  from Element.prems have kids: "\<forall>ch \<in> set chs. elements_only ch" by simp
  with Element.IH have "\<And>ch. ch \<in> set chs \<Longrightarrow>
      map Inr (fst (xml_to_tree ch (lvl + 1) p s)) = map (\<lambda>(n, l). format_line n l p s) (preorder ch (lvl + 1))"
    by blast
  then have rec: "concat (map (\<lambda>ch. map Inr (fst (xml_to_tree ch (lvl + 1) p s))) chs)
      = concat (map (\<lambda>ch. map (\<lambda>(n, l). format_line n l p s) (preorder ch (lvl + 1))) chs)"
    by (simp cong: map_cong)
  have "map Inr (fst (xml_to_tree (Element t tx chs) lvl p s))
      = format_line (Element t tx chs) lvl p s
          # concat (map (\<lambda>ch. map Inr (fst (xml_to_tree ch (lvl + 1) p s))) chs)"
    by (simp only: t xml_to_tree_element [OF kids] format_line_element fst_conv list.map map_concat
        map_map comp_def)
  with rec show ?case
    by (simp add: map_concat comp_def)
qed

lemma xml_to_tree_blanks:
  "elements_only x \<Longrightarrow>
   map leading_blanks (fst (xml_to_tree x lvl p s)) = map (\<lambda>(n, l). 2 * nat (l - 1)) (preorder x lvl)"
proof (induction x arbitrary: lvl)
  case (Element t tx chs)
  then obtain tg where t: "t = StrTag tg" by (cases t) simp_all
  from Element.prems have kids: "\<forall>ch \<in> set chs. elements_only ch" by simp
  with Element.IH have "\<And>ch. ch \<in> set chs \<Longrightarrow>
      map leading_blanks (fst (xml_to_tree ch (lvl + 1) p s)) = map (\<lambda>(n, l). 2 * nat (l - 1)) (preorder ch (lvl + 1))"
    by blast
  then have rec: "concat (map (\<lambda>ch. map leading_blanks (fst (xml_to_tree ch (lvl + 1) p s))) chs)
      = concat (map (\<lambda>ch. map (\<lambda>(n, l). 2 * nat (l - 1)) (preorder ch (lvl + 1))) chs)"
    by (simp cong: map_cong)
  have "map leading_blanks (fst (xml_to_tree (Element t tx chs) lvl p s))
      = 2 * nat (lvl - 1)
          # concat (map (\<lambda>ch. map leading_blanks (fst (xml_to_tree ch (lvl + 1) p s))) chs)"
    by (simp only: t xml_to_tree_element [OF kids] leading_blanks_line_text fst_conv list.map
        map_concat map_map comp_def)
  with rec show ?case
    by (simp add: map_concat comp_def)
qed

lemma length_preorder: "length (preorder x lvl) = num_nodes x"
proof (induction x arbitrary: lvl)
  case (Element t tx chs)
  then show ?case by (simp add: length_concat comp_def cong: map_cong)
qed

text \<open>
  C3, as the code has it. On a tree all of whose nodes are elements proper (no comment,
  processing instruction or entity reference) the generator raises nothing and yields
  the formatted lines of the nodes in pre-order, one per node, so as many lines as
  nodes; and the line of a node at depth \<open>l\<close> begins with exactly \<open>2 * (l - 1)\<close> blanks,
  that is \<open>l - 1\<close> units of two (the character after them is \<open>|\<close>). The root is at depth
  \<open>lvl\<close>, which is 1 by default.
\<close>

theorem xml_to_tree_lines_preorder:
  "elements_only x \<Longrightarrow>
   snd (xml_to_tree x lvl p s) = None
   \<and> map Inr (fst (xml_to_tree x lvl p s)) = map (\<lambda>(n, l). format_line n l p s) (preorder x lvl)
   \<and> length (fst (xml_to_tree x lvl p s)) = num_nodes x
   \<and> map leading_blanks (fst (xml_to_tree x lvl p s)) = map (\<lambda>(n, l). 2 * nat (l - 1)) (preorder x lvl)"
proof -
  assume el: "elements_only x"
  have lines: "map Inr (fst (xml_to_tree x lvl p s)) = map (\<lambda>(n, l). format_line n l p s) (preorder x lvl)"
    using el by (rule xml_to_tree_preorder)
  have "length (map (Inr :: string \<Rightarrow> py_exn + string) (fst (xml_to_tree x lvl p s))) = length (preorder x lvl)"
    by (simp only: lines length_map)
  then have count: "length (fst (xml_to_tree x lvl p s)) = num_nodes x"
    by (simp add: length_preorder)
  from el lines count show ?thesis
    by (simp add: xml_to_tree_no_raise xml_to_tree_blanks)
qed

theorem xml_to_tree_lines_preorder_witness:
  "elements_only example_tree
   \<and> snd (xml_to_tree example_tree 1 False True) = None
   \<and> length (fst (xml_to_tree example_tree 1 False True)) = 4
   \<and> map leading_blanks (fst (xml_to_tree example_tree 1 False True)) = [0, 2, 4, 2]"
  using xml_to_tree_lines_preorder [of example_tree 1 False True]
  by (simp add: example_tree_def)

text \<open>
  On a tree with a comment the generator yields the lines of the nodes before the
  comment and then raises \<open>TypeError\<close>, with \<open>preserve_ns\<close> or without: one line for
  three nodes.
\<close>

theorem xml_to_tree_comment_counterexample:
  "fst (xml_to_tree commented_tree 1 False True) = [''|--Tag: configure|  Text: '']
   \<and> map_option exn_class (snd (xml_to_tree commented_tree 1 False True)) = Some ''TypeError''
   \<and> map_option exn_class (snd (xml_to_tree commented_tree 1 True True)) = Some ''TypeError''
   \<and> num_nodes commented_tree = 3"
  by (simp add: commented_tree_def format_line_def printer_tag_def py_format_left_def
      line_text_def py_repeat_def node_text_def py_truthy_def)

section \<open>The ancestor path\<close>

lemma path_loop_chain:
  "parent_chain st e as \<Longrightarrow>
   path_loop st p (n_parent (st e)) acc = Some (map (ancestor_name st p) (rev as) @ acc)"
proof (induction as arbitrary: e acc)
  case Nil
  then show ?case by (simp add: path_loop.simps)
next
  case (Cons a as)
  then have par: "n_parent (st e) = Some a" and ch: "parent_chain st a as" by simp_all
  have "path_loop st p (n_parent (st e)) acc
        = path_loop st p (n_parent (st a)) (ancestor_name st p a # acc)"
    by (subst path_loop.simps) (simp add: par ancestor_name_def normalize_tag_def)
  also have "\<dots> = Some (map (ancestor_name st p) (rev as) @ ancestor_name st p a # acc)"
    by (rule Cons.IH [OF ch])
  finally show ?case by simp
qed

lemma chain_step:
  assumes "case n_parent (st a) of None \<Rightarrow> True | Some b \<Rightarrow> \<exists>as. parent_chain st b as"
  shows "\<exists>as. parent_chain st a as"
proof (cases "n_parent (st a)")
  case None
  then have "parent_chain st a []" by simp
  then show ?thesis ..
next
  case (Some b)
  with assms obtain as where "parent_chain st b as" by auto
  with Some have "parent_chain st a (b # as)" by simp
  then show ?thesis ..
qed

lemma path_loop_Some_chain:
  assumes "path_loop st p anc acc = Some r"
  shows "case anc of None \<Rightarrow> True | Some a \<Rightarrow> \<exists>as. parent_chain st a as"
proof (rule path_loop.raw_induct
    [where P = "\<lambda>st p anc acc r. case anc of None \<Rightarrow> True | Some a \<Rightarrow> \<exists>as. parent_chain st a as",
     OF _ assms])
  fix f :: "store \<Rightarrow> bool \<Rightarrow> ref option \<Rightarrow> string list \<Rightarrow> string list option"
  fix st p anc acc r
  assume IH: "\<And>st p anc acc r. f st p anc acc = Some r \<Longrightarrow>
                (case anc of None \<Rightarrow> True | Some a \<Rightarrow> \<exists>as. parent_chain st a as)"
  assume body: "(case anc of None \<Rightarrow> Some acc
       | Some a \<Rightarrow> f st p (n_parent (st a))
            ((if p then py_strip (n_tag (st a)) else re_sub_ns (py_strip (n_tag (st a)))) # acc))
      = Some r"
  show "case anc of None \<Rightarrow> True | Some a \<Rightarrow> \<exists>as. parent_chain st a as"
  proof (cases anc)
    case None
    then show ?thesis by simp
  next
    case (Some a)
    with body have "f st p (n_parent (st a))
            ((if p then py_strip (n_tag (st a)) else re_sub_ns (py_strip (n_tag (st a)))) # acc) = Some r"
      by simp
    then have "case n_parent (st a) of None \<Rightarrow> True | Some b \<Rightarrow> \<exists>as. parent_chain st b as"
      by (rule IH)
    then have "\<exists>as. parent_chain st a as" by (rule chain_step)
    with Some show ?thesis by simp
  qed
qed

lemma get_path_returns_iff_chain:
  "(get_path_to_root st e p \<noteq> None) = (\<exists>as. parent_chain st e as)"
proof
  assume "get_path_to_root st e p \<noteq> None"
  then obtain r where r: "path_loop st p (n_parent (st e)) [] = Some r"
    by (auto simp: get_path_to_root_def)
  from path_loop_Some_chain [OF r] show "\<exists>as. parent_chain st e as"
    by (rule chain_step)
next
  assume "\<exists>as. parent_chain st e as"
  then obtain as where "parent_chain st e as" ..
  from path_loop_chain [OF this, of p "[]"] show "get_path_to_root st e p \<noteq> None"
    by (simp add: get_path_to_root_def)
qed

lemma cyclic_doc_no_chain: "\<not> parent_chain cyclic_doc e as"
  by (induction as arbitrary: e) (simp_all add: cyclic_doc_def)

text \<open>
  C4. For an element without parent the resolver returns the empty list; for an element
  whose ancestors are \<open>as\<close> (the immediate parent first, the root last; its depth is
  the length of \<open>as\<close>) it returns exactly that many names: the stripped, normalised tags
  of the ancestors from the root down to the immediate parent, without the element's own.
\<close>

theorem get_path_to_root_ancestors:
  "(n_parent (st e) = None \<longrightarrow> get_path_to_root st e p = Some [])
   \<and> (parent_chain st e as \<longrightarrow>
        (\<exists>path. get_path_to_root st e p = Some path \<and> length path = length as
                \<and> path = map (ancestor_name st p) (rev as)))"
proof (intro conjI impI)
  assume "n_parent (st e) = None"
  then show "get_path_to_root st e p = Some []"
    by (simp add: get_path_to_root_def path_loop.simps)
next
  assume "parent_chain st e as"
  from path_loop_chain [OF this, of p "[]"]
  show "\<exists>path. get_path_to_root st e p = Some path \<and> length path = length as
                \<and> path = map (ancestor_name st p) (rev as)"
    by (simp add: get_path_to_root_def)
qed

theorem get_path_to_root_ancestors_witness:
  "n_parent (example_doc 0) = None \<and> get_path_to_root example_doc 0 False = Some []
   \<and> parent_chain example_doc 2 [1, 0]
   \<and> get_path_to_root example_doc 2 False = Some [''configure'', ''router'']"
  using get_path_to_root_ancestors [of example_doc 0 False "[]"]
    get_path_to_root_ancestors [of example_doc 2 False "[1, 0]"]
  by (simp add: example_doc_def ancestor_name_def normalize_tag_def py_strip_def py_isspace_def
      not_nl_def after_last_rbrace_def not_rbrace_def)

text \<open>
  C5, as the code has it. The resolver returns exactly when the parent chain of the
  element is finite, that is ends at a node without parent; on a chain that never ends
  (a cycle) the loop has no exit and no check that would raise.
\<close>

theorem get_path_to_root_returns_iff_finite_chain:
  "(\<exists>path. get_path_to_root st e p = Some path) = (\<exists>as. parent_chain st e as)"
  using get_path_returns_iff_chain [of st e p] by simp

theorem get_path_to_root_returns_iff_finite_chain_witness:
  "parent_chain example_doc 2 [1, 0] \<and> (\<exists>path. get_path_to_root example_doc 2 True = Some path)"
proof -
  have c: "parent_chain example_doc 2 [1, 0]"
    by (simp add: example_doc_def)
  then have "\<exists>as. parent_chain example_doc 2 as" ..
  with get_path_to_root_returns_iff_finite_chain [of example_doc 2 True] c show ?thesis by simp
qed

text \<open>On the cyclic document the loop never leaves: the resolver has no result.\<close>

theorem get_path_to_root_cycle_counterexample:
  "get_path_to_root cyclic_doc 0 False = None"
  using get_path_returns_iff_chain [of cyclic_doc 0 False] cyclic_doc_no_chain by simp

section \<open>The filter loader\<close>

lemma py_contains_take: "take (length p) s = p \<Longrightarrow> py_contains p s"
  by (cases s) auto

lemma py_contains_append: "py_contains p (a @ p @ b)"
  by (induction a) (simp_all add: py_contains_take)

text \<open>
  C8, as the code has it. When \<open><directory>/<name>.xml\<close> does not exist or is not
  readable, the loader raises \<open>ValueError\<close> with the message
  \<open>Please directory <directory> exist and intended filter present in the directory.\<close>,
  which names the directory; the filter name appears only in the text
  \<open>Can't load filter <name>\<close> written to standard output.
\<close>

theorem load_xml_filter_missing:
  "\<not> (path_exists fs (abspath fs (fdir @ ''/'' @ fname @ ''.xml''))
        \<and> access_r fs (abspath fs (fdir @ ''/'' @ fname @ ''.xml''))) \<Longrightarrow>
   load_xml_filter fs fname fdir out
     = (Inl (ValueError (''Please directory '' @ fdir
                @ '' exist and intended filter present in the directory.'')),
        out @ [''Can'' @ [CHR 0x27] @ ''t load filter '' @ fname])
   \<and> py_contains fdir (''Please directory '' @ fdir
                @ '' exist and intended filter present in the directory.'')"
proof -
  assume "\<not> (path_exists fs (abspath fs (fdir @ ''/'' @ fname @ ''.xml''))
        \<and> access_r fs (abspath fs (fdir @ ''/'' @ fname @ ''.xml'')))"
  then have "load_xml_filter fs fname fdir out
     = (Inl (ValueError (''Please directory '' @ fdir
                @ '' exist and intended filter present in the directory.'')),
        out @ [''Can'' @ [CHR 0x27] @ ''t load filter '' @ fname])"
    unfolding load_xml_filter_def Let_def by (simp only: if_False)
  then show ?thesis
    using py_contains_append [of fdir "''Please directory ''"] by blast
qed

theorem load_xml_filter_missing_witness:
  "\<not> (path_exists empty_fs (abspath empty_fs (''filters'' @ ''/'' @ ''interface'' @ ''.xml''))
        \<and> access_r empty_fs (abspath empty_fs (''filters'' @ ''/'' @ ''interface'' @ ''.xml'')))
   \<and> load_xml_filter empty_fs ''interface'' ''filters'' []
     = (Inl (ValueError ''Please directory filters exist and intended filter present in the directory.''),
        [''Can'' @ [CHR 0x27] @ ''t load filter interface''])"
  using load_xml_filter_missing [of empty_fs "''filters''" "''interface''" "[]"]
  by (simp add: empty_fs_def)

text \<open>The error raised for the missing filter \<open>interface\<close> does not contain that name.\<close>

theorem load_xml_filter_file_not_named_counterexample:
  "fst (load_xml_filter empty_fs ''interface'' ''filters'' [])
     = Inl (ValueError ''Please directory filters exist and intended filter present in the directory.'')
   \<and> \<not> py_contains ''interface'' ''Please directory filters exist and intended filter present in the directory.''"
  by (simp add: load_xml_filter_def empty_fs_def)

section \<open>The configuration fetcher\<close>

lemma fetch_calls:
  "calls (fst (snd (get_sros_elem_config xml_par nfd xml_filter source rbt pprn out)))
   = calls nfd @ [(source, (''subtree'', if xml_filter \<noteq> [] then xml_filter else def_xml_filter))]"
  by (simp add: get_sros_elem_config_def get_config_def split: sum.splits)

text \<open>
  C1. Called with a non-empty filter \<open>f\<close> and a datastore \<open>d\<close>, the fetcher makes exactly
  one \<open>get_config\<close> call on the session, with \<open>source = d\<close> and
  \<open>filter = ("subtree", f)\<close>; so the filter \<open><interface/>\<close> with datastore
  \<open>candidate\<close> is passed as \<open>("candidate", ("subtree", "<interface/>"))\<close>.
\<close>

theorem fetch_passes_explicit_filter:
  "(xml_filter \<noteq> [] \<longrightarrow>
      calls (fst (snd (get_sros_elem_config xml_par nfd xml_filter source rbt pprn out)))
      = calls nfd @ [(source, (''subtree'', xml_filter))])
   \<and> calls (fst (snd (get_sros_elem_config xml_par nfd ''<interface/>'' ''candidate'' rbt pprn out)))
      = calls nfd @ [(''candidate'', (''subtree'', ''<interface/>''))]"
  by (simp add: fetch_calls)

theorem fetch_passes_explicit_filter_witness:
  "''<system/>'' \<noteq> [] \<and>
   calls (fst (snd (get_sros_elem_config tree_parser (stub_session ''<a/>'') ''<system/>'' ''running'' False False [])))
     = [(''running'', (''subtree'', ''<system/>''))]"
  using fetch_passes_explicit_filter
    [of "''<system/>''" tree_parser "stub_session ''<a/>''" "''running''" False False "[]"]
  by (simp add: stub_session_def)

text \<open>
  C2, as the code has it. Called with the empty filter, the fetcher makes its one
  \<open>get_config\<close> call with the built-in default filter, whose text is the literal of the
  specification with a line feed and fourteen blanks in front of each of its two tags.
\<close>

theorem fetch_default_filter:
  "calls (fst (snd (get_sros_elem_config xml_par nfd [] source rbt pprn out)))
     = calls nfd @ [(source, (''subtree'', def_xml_filter))]
   \<and> def_xml_filter = filter_indent @ configure_open_tag @ filter_indent @ configure_close_tag
   \<and> spec_default_filter = configure_open_tag @ configure_close_tag"
  by (simp add: fetch_calls def_xml_filter_def spec_default_filter_def filter_indent_def
      configure_open_tag_def configure_close_tag_def eval_nat_numeral)

text \<open>The filter passed is not the literal of the specification, character for character.\<close>

theorem fetch_default_filter_literal_counterexample:
  "calls (fst (snd (get_sros_elem_config tree_parser (stub_session ''<a/>'') [] ''running'' False False [])))
   \<noteq> [(''running'', (''subtree'', spec_default_filter))]"
  by (simp add: get_sros_elem_config_def get_config_def stub_session_def def_xml_filter_def
      spec_default_filter_def tree_parser_def)

text \<open>
  C9, as the code has it. With \<open>pprn = False\<close>, when the session answers with a payload,
  the outcome of the fetcher is the outcome of the parser on that payload, whatever it
  is: an exception of the parser leaves the fetcher as the parser raised it, and a
  \<open>None\<close> is returned as it is. Datastore and filter are not added to it.
\<close>

theorem fetch_returns_parser_outcome:
  "answer nfd (calls nfd)
      (source, (''subtree'', if xml_filter \<noteq> [] then xml_filter else def_xml_filter)) = Inr data_xml \<Longrightarrow>
   get_sros_elem_config xml_par nfd xml_filter source rbt False out
     = (xml_par rbt data_xml,
        nfd\<lparr>calls := calls nfd @ [(source, (''subtree'', if xml_filter \<noteq> [] then xml_filter else def_xml_filter))]\<rparr>,
        out)"
  by (cases "xml_filter = []") (simp_all add: get_sros_elem_config_def get_config_def)

theorem fetch_returns_parser_outcome_witness:
  "answer (stub_session []) (calls (stub_session []))
      (''candidate'', (''subtree'', if ''<interface/>'' \<noteq> [] then ''<interface/>'' else def_xml_filter))
     = Inr []
   \<and> fst (get_sros_elem_config recover_parser (stub_session []) ''<interface/>'' ''candidate'' True False [])
     = recover_parser True []"
  using fetch_returns_parser_outcome
    [of "stub_session []" "''candidate''" "''<interface/>''" "[]" recover_parser True "[]"]
  by (simp add: stub_session_def)

text \<open>
  The empty payload, on which the parser raises \<open>XMLSyntaxError\<close>: the fetcher ends with
  that exception, the same for two different datastores and filters. The payload
  \<open>garbage\<close>, on which the parser returns \<open>None\<close>: the fetcher returns \<open>None\<close> and raises
  nothing.
\<close>

theorem fetch_malformed_response_counterexample:
  "raised_class (fst (get_sros_elem_config recover_parser (stub_session []) ''<interface/>'' ''candidate'' False False []))
     = Some ''XMLSyntaxError''
   \<and> fst (get_sros_elem_config recover_parser (stub_session []) ''<interface/>'' ''candidate'' False False [])
     = fst (get_sros_elem_config recover_parser (stub_session []) ''<system/>'' ''running'' False False [])
   \<and> fst (get_sros_elem_config recover_parser (stub_session ''garbage'') ''<interface/>'' ''candidate'' False False [])
     = Inr None"
  by (simp add: get_sros_elem_config_def get_config_def stub_session_def recover_parser_def raised_class_def)

text \<open>
  C10. On the same session, filter, datastore and payload, the call with \<open>pprn = False\<close>
  returns the parsed tree and the call with \<open>pprn = True\<close> raises \<open>TypeError\<close>: line 179
  adds \<open>len(title)\<close>, an integer, to a string.
\<close>

theorem fetch_pprn_raises_type_error:
  "fst (get_sros_elem_config tree_parser (stub_session ''<a/>'') ''<interface/>'' ''candidate'' False True [])
     = Inl (TypeError str_plus_int_message)
   \<and> fst (get_sros_elem_config tree_parser (stub_session ''<a/>'') ''<interface/>'' ''candidate'' False False [])
     = Inr (Some example_tree)"
  by (simp add: get_sros_elem_config_def get_config_def stub_session_def tree_parser_def)

end
